theory Spec2Isabelle
  imports Main
begin

section \<open>JavaScript strings and numbers\<close>

text \<open>
  The validation schemas, the signup page and the login page work on JavaScript strings.
  A string is modelled as a list of code units; Isabelle's \<open>char\<close> has eight bits, so
  the model covers the code units below 256. The character classes of the source's regular
  expressions (\<open>[A-Z]\<close>, \<open>[a-z]\<close>, \<open>[0-9]\<close>) are ranges of ASCII code units.
\<close>

definition code_unit :: "char \<Rightarrow> nat" where
  "code_unit c = of_char c"

definition is_upper :: "char \<Rightarrow> bool" where
  "is_upper c = (65 \<le> code_unit c \<and> code_unit c \<le> 90)"

definition is_lower :: "char \<Rightarrow> bool" where
  "is_lower c = (97 \<le> code_unit c \<and> code_unit c \<le> 122)"

definition is_digit :: "char \<Rightarrow> bool" where
  "is_digit c = (48 \<le> code_unit c \<and> code_unit c \<le> 57)"

definition is_alnum :: "char \<Rightarrow> bool" where
  "is_alnum c = (is_upper c \<or> is_lower c \<or> is_digit c)"

text \<open>
  \<open>String.prototype.trim\<close> strips white space and line terminators from both ends; below
  256 these are tab, line feed, vertical tab, form feed, carriage return, space and the
  no-break space.
\<close>

definition is_space :: "char \<Rightarrow> bool" where
  "is_space c = (code_unit c \<in> {9, 10, 11, 12, 13, 32, 160})"

definition trim :: "string \<Rightarrow> string" where
  "trim s = rev (dropWhile is_space (rev (dropWhile is_space s)))"

text \<open>
  \<open>String.prototype.toLowerCase\<close>: the ASCII capitals, and the Latin-1 capitals
  (\<open>0xC0\<close> to \<open>0xDE\<close> without the multiplication sign \<open>0xD7\<close>), move up by 32.
\<close>

definition lower_char :: "char \<Rightarrow> char" where
  "lower_char c =
     (if is_upper c \<or> (192 \<le> code_unit c \<and> code_unit c \<le> 222 \<and> code_unit c \<noteq> 215)
      then char_of (code_unit c + 32) else c)"

definition toLowerCase :: "string \<Rightarrow> string" where
  "toLowerCase s = map lower_char s"

section \<open>The Zod string schema\<close>

text \<open>
  The schemas of \<open>src/lib/validations.ts\<close> are chains of Zod string checks. A
  \<open>z.string()\<close> schema keeps its checks in the order in which they were chained and runs
  them in that order on the input: a failing \<open>min\<close>, \<open>max\<close>, \<open>regex\<close> or \<open>email\<close>
  check adds its message to the issues and parsing goes on with the next check;
  \<open>trim\<close> and \<open>toLowerCase\<close> are checks as well, which replace the value that the
  checks after them see. Parsing succeeds with the final value if no issue was added.
\<close>

datatype check =
    Min nat string
  | Max nat string
  | Regex "string \<Rightarrow> bool" string
  | Email string
  | Trim
  | ToLowerCase

fun split_on :: "char \<Rightarrow> string \<Rightarrow> string list" where
  "split_on d [] = [[]]"
| "split_on d (c # cs) =
     (if c = d then [] # split_on d cs
      else (case split_on d cs of p # ps \<Rightarrow> (c # p) # ps | [] \<Rightarrow> [[c]]))"

fun has_dotdot :: "string \<Rightarrow> bool" where
  "has_dotdot (a # b # cs) = ((a = CHR ''.'' \<and> b = CHR ''.'') \<or> has_dotdot (b # cs))"
| "has_dotdot _ = False"

text \<open>
  The pattern behind \<open>.email()\<close> in the Zod 3 line, matched case-insensitively:
  \<^verbatim>\<open>/^(?!\.)(?!.*\.\.)([A-Z0-9_'+\-\.]*)[A-Z0-9_+-]@([A-Z0-9][A-Z0-9\-]*\.)+[A-Z]{2,}$/i\<close>
  Neither character class contains \<open>@\<close> or white space, so the string splits at its only
  \<open>@\<close>, and the domain splits at its dots into labels and a final part of letters.
\<close>

definition local_char :: "char \<Rightarrow> bool" where
  "local_char c = (is_alnum c \<or> c \<in> set ''_'' \<or> c = CHR 0x27 \<or> c \<in> set ''+-.'')"

definition local_last_char :: "char \<Rightarrow> bool" where
  "local_last_char c = (is_alnum c \<or> c \<in> set ''_+-'')"

definition label_ok :: "string \<Rightarrow> bool" where
  "label_ok l = (case l of [] \<Rightarrow> False
     | c # cs \<Rightarrow> is_alnum c \<and> list_all (\<lambda>x. is_alnum x \<or> x = CHR ''-'') cs)"

definition tld_ok :: "string \<Rightarrow> bool" where
  "tld_ok t = (2 \<le> length t \<and> list_all (\<lambda>x. is_upper x \<or> is_lower x) t)"

definition emailRegex :: "string \<Rightarrow> bool" where
  "emailRegex s =
     (case split_on (CHR ''@'') s of
        [lpart, dpart] \<Rightarrow>
          (case s of c # _ \<Rightarrow> c \<noteq> CHR ''.'' | [] \<Rightarrow> True) \<and> \<not> has_dotdot s \<and>
          lpart \<noteq> [] \<and> list_all local_char (butlast lpart) \<and>
          local_last_char (last lpart) \<and>
          (let parts = split_on (CHR ''.'') dpart
           in 2 \<le> length parts \<and> list_all label_ok (butlast parts) \<and> tld_ok (last parts))
      | _ \<Rightarrow> False)"

fun run_check :: "check \<Rightarrow> string list \<times> string \<Rightarrow> string list \<times> string" where
  "run_check (Min n msg) (issues, v) = (if length v < n then issues @ [msg] else issues, v)"
| "run_check (Max n msg) (issues, v) = (if length v > n then issues @ [msg] else issues, v)"
| "run_check (Regex r msg) (issues, v) = (if \<not> r v then issues @ [msg] else issues, v)"
| "run_check (Email msg) (issues, v) = (if \<not> emailRegex v then issues @ [msg] else issues, v)"
| "run_check Trim (issues, v) = (issues, trim v)"
| "run_check ToLowerCase (issues, v) = (issues, toLowerCase v)"

definition run_checks :: "check list \<Rightarrow> string \<Rightarrow> string list \<times> string" where
  "run_checks cs input = foldl (\<lambda>acc c. run_check c acc) ([], input) cs"

text \<open>
  A string schema is its chain of checks; \<open>safeParse\<close> gives the issues (\<open>Inl\<close>) or
  the parsed value (\<open>Inr\<close>).
\<close>

type_synonym string_schema = "check list"

definition safeParse :: "string_schema \<Rightarrow> string \<Rightarrow> string list + string" where
  "safeParse schema input =
     (case run_checks schema input of (issues, v) \<Rightarrow> if issues = [] then Inr v else Inl issues)"

section \<open>The schemas of validations.ts\<close>

definition passwordSchema :: string_schema where
  "passwordSchema =
     [Min 8 ''Password must be at least 8 characters'',
      Regex (list_ex is_upper) ''Password must contain at least one uppercase letter'',
      Regex (list_ex is_lower) ''Password must contain at least one lowercase letter'',
      Regex (list_ex is_digit) ''Password must contain at least one number'',
      Regex (list_ex (\<lambda>c. \<not> is_alnum c))
        ''Password must contain at least one special character'']"

text \<open>\<open>/^[a-zA-Z0-9_]+$/\<close>: one or more characters, all of them letters, digits or underscores.\<close>

definition username_chars :: "string \<Rightarrow> bool" where
  "username_chars s = (s \<noteq> [] \<and> list_all (\<lambda>c. is_alnum c \<or> c = CHR ''_'') s)"

definition usernameSchema :: string_schema where
  "usernameSchema =
     [Min 3 ''Username must be at least 3 characters'',
      Max 30 ''Username must not exceed 30 characters'',
      Regex username_chars ''Username can only contain letters, numbers, and underscores'',
      Trim]"

definition emailSchema :: string_schema where
  "emailSchema =
     [Email ''Invalid email address'',
      Max 255 ''Email must not exceed 255 characters'',
      Trim,
      ToLowerCase]"

text \<open>
  The form data. \<open>z.object\<close> parses the fields in the order of its shape and collects the
  issues of every field under the field's name. A string check that fails leaves the
  object parse dirty, not aborted, so the \<open>refine\<close> of the signup schema still runs and
  compares the two parsed password fields.
\<close>

record login_form =
  email :: string
  password :: string

record signup_form = login_form +
  username :: string
  confirmPassword :: string

type_synonym field_issues = "(string \<times> string) list"

definition at_path :: "string \<Rightarrow> string list \<Rightarrow> field_issues" where
  "at_path field issues = map (Pair field) issues"

definition signupSchema :: "signup_form \<Rightarrow> field_issues + signup_form" where
  "signupSchema d =
     (case run_checks usernameSchema (username d) of (iu, u) \<Rightarrow>
      case run_checks emailSchema (email d) of (ie, e) \<Rightarrow>
      case run_checks passwordSchema (password d) of (ip, p) \<Rightarrow>
      case run_checks [] (confirmPassword d) of (ic, c) \<Rightarrow>
        let issues = at_path ''username'' iu @ at_path ''email'' ie @
                     at_path ''password'' ip @ at_path ''confirmPassword'' ic @
                     (if p = c then [] else [(''confirmPassword'', ''Passwords do not match'')])
        in if issues = [] then
             Inr \<lparr>email = e, password = p, username = u, confirmPassword = c\<rparr>
           else Inl issues)"

definition loginSchema :: "login_form \<Rightarrow> field_issues + login_form" where
  "loginSchema d =
     (case run_checks emailSchema (email d) of (ie, e) \<Rightarrow>
      case run_checks [Min 1 ''Password is required''] (password d) of (ip, p) \<Rightarrow>
        let issues = at_path ''email'' ie @ at_path ''password'' ip
        in if issues = [] then Inr \<lparr>email = e, password = p\<rparr> else Inl issues)"

section \<open>The password strength meter of Signup.tsx\<close>

text \<open>
  \<open>watch("password")\<close> is undefined until the field has a value (\<open>None\<close>); the effect
  scores 0 for an undefined or empty password.
\<close>

definition passwordStrength :: "string option \<Rightarrow> nat" where
  "passwordStrength pw =
     (case pw of None \<Rightarrow> 0
      | Some p \<Rightarrow>
          if p = [] then 0
          else (if length p \<ge> 8 then 20 else 0) +
               (if length p \<ge> 12 then 10 else 0) +
               (if list_ex is_upper p then 20 else 0) +
               (if list_ex is_lower p then 20 else 0) +
               (if list_ex is_digit p then 15 else 0) +
               (if list_ex (\<lambda>c. \<not> is_alnum c) p then 15 else 0))"

definition strengthLabel :: "nat \<Rightarrow> string" where
  "strengthLabel strength =
     (if strength < 40 then ''Weak'' else if strength < 70 then ''Medium'' else ''Strong'')"

definition getStrengthColor :: "nat \<Rightarrow> string" where
  "getStrengthColor strength =
     (if strength < 40 then ''bg-destructive''
      else if strength < 70 then ''bg-warning'' else ''bg-success'')"

section \<open>Numbers stored as strings\<close>

text \<open>
  The login page keeps its two persisted values as strings in \<open>localStorage\<close>, written
  with \<open>Number.prototype.toString\<close> and read back with \<open>parseInt\<close>. Timestamps and
  counters are integers; \<open>parseInt\<close> yields \<open>NaN\<close> on a string without digits.
  \<open>parseInt\<close> skips leading white space, reads a sign and an optional \<open>0x\<close> prefix,
  and converts the longest run of digits that follows.
\<close>

datatype number = Num int | NaN

definition digit_char :: "int \<Rightarrow> char" where
  "digit_char d = char_of (48 + d)"

function digits :: "int \<Rightarrow> string" where
  "digits n = (if n < 10 then [digit_char n] else digits (n div 10) @ [digit_char (n mod 10)])"
  by pat_completeness auto
termination
  by (relation "measure nat") auto

declare digits.simps [simp del]

definition toString :: "int \<Rightarrow> string" where
  "toString i = (if i < 0 then CHR ''-'' # digits (- i) else digits i)"

definition digit_value :: "char \<Rightarrow> nat" where
  "digit_value c =
     (if is_digit c then code_unit c - 48
      else if is_upper c then code_unit c - 55
      else code_unit c - 87)"

definition is_radix_digit :: "int \<Rightarrow> char \<Rightarrow> bool" where
  "is_radix_digit radix c =
     ((is_digit c \<or> is_upper c \<or> is_lower c) \<and> int (digit_value c) < radix)"

definition parseInt :: "string \<Rightarrow> number" where
  "parseInt s =
     (let t = dropWhile is_space s;
          negative = (case t of c # _ \<Rightarrow> c = CHR ''-'' | [] \<Rightarrow> False);
          u = (case t of c # cs \<Rightarrow> if c = CHR ''-'' \<or> c = CHR ''+'' then cs else t | [] \<Rightarrow> t);
          hex = (case u of a # b # _ \<Rightarrow> a = CHR ''0'' \<and> (b = CHR ''x'' \<or> b = CHR ''X'')
                 | _ \<Rightarrow> False);
          radix = (if hex then 16 else 10);
          ds = takeWhile (is_radix_digit radix) (if hex then drop 2 u else u);
          v = foldl (\<lambda>acc c. acc * radix + int (digit_value c)) 0 ds
      in if ds = [] then NaN else Num (if negative then - v else v))"

section \<open>The hosted platform\<close>

text \<open>
  The Supabase client is the interface to the hosted authentication service and database.
  A call resolves to a pair of data and error, or its promise is rejected. The platform's
  behaviour during one flow is a record of replies, one for each call and its arguments;
  no flow makes the same call with the same arguments twice. The calls a flow makes are
  recorded, in order, next to the toasts, the console output and the navigation.
\<close>

type_synonym user_id = string

datatype event_type = signup_success | signup_failed | login_success | login_failed | logout_success

datatype 'a response = Rejects string | Responds 'a "string option"

text \<open>
  The reply of \<open>check_rate_limit\<close>. \<open>lockout_until\<close> is a timestamp, given here by its
  epoch milliseconds, or null; \<open>attempts_remaining\<close> and \<open>message\<close> may be missing.
\<close>

record rate_limit_check =
  allowed :: bool
  lockout_until :: "int option"
  attempts_remaining :: "int option"
  message :: "string option"

record remote =
  check_rate_limit :: "string \<Rightarrow> int \<Rightarrow> int \<Rightarrow> rate_limit_check option response"
  record_login_attempt :: "string \<Rightarrow> bool \<Rightarrow> unit response"
  auth_signUp :: "string \<Rightarrow> string \<Rightarrow> user_id option response"
  auth_signInWithPassword :: "string \<Rightarrow> string \<Rightarrow> user_id option response"
  auth_signOut :: "unit response"
  profiles_insert :: "user_id \<Rightarrow> string \<Rightarrow> string \<Rightarrow> unit response"
  profiles_update_last_login :: "user_id \<Rightarrow> unit response"
  log_security_event :: "user_id option \<Rightarrow> event_type \<Rightarrow> unit response"

datatype remote_call =
    CheckRateLimit string int int
  | RecordLoginAttempt string bool
  | AuthSignUp string string
  | AuthSignInWithPassword string string
  | AuthSignOut
  | ProfilesInsert user_id string string
  | ProfilesUpdateLastLogin user_id
  | LogSecurityEvent "user_id option" event_type

datatype effect =
    Call remote_call
  | Toast string string bool
  | ConsoleError string
  | Navigate string

text \<open>A toast has a title, a description and the flag of the destructive variant.\<close>

datatype 'a completion = Returns 'a | Throws string

section \<open>The authentication hook of useAuth.tsx\<close>

text \<open>
  Each of the three functions returns \<open>{ error }\<close>: \<open>Returns None\<close> is
  \<open>{ error: null }\<close>. Everything awaited inside \<open>try\<close> that rejects, and every
  \<open>throw\<close>, lands in the \<open>catch\<close> block; a rejection inside the \<open>catch\<close> block
  leaves the function as an exception.
\<close>

definition signUp_catch ::
  "remote \<Rightarrow> string \<Rightarrow> effect list \<Rightarrow> string option completion \<times> effect list" where
  "signUp_catch r error done =
     (let tr = done @ [ConsoleError ''[Security] Signup error:'',
                       Call (LogSecurityEvent None signup_failed)]
      in case log_security_event r None signup_failed of
           Rejects e \<Rightarrow> (Throws e, tr)
         | Responds _ _ \<Rightarrow> (Returns (Some error), tr))"

definition signUp ::
  "remote \<Rightarrow> string \<Rightarrow> string \<Rightarrow> string \<Rightarrow> string option completion \<times> effect list" where
  "signUp r email_arg password_arg username_arg =
     (let t0 = [Call (AuthSignUp email_arg password_arg)]
      in case auth_signUp r email_arg password_arg of
           Rejects e \<Rightarrow> signUp_catch r e t0
         | Responds _ (Some authError) \<Rightarrow> signUp_catch r authError t0
         | Responds None None \<Rightarrow> (Returns None, t0)
         | Responds (Some uid) None \<Rightarrow>
             (let t1 = t0 @ [Call (ProfilesInsert uid username_arg email_arg)]
              in case profiles_insert r uid username_arg email_arg of
                   Rejects e \<Rightarrow> signUp_catch r e t1
                 | Responds _ (Some profileError) \<Rightarrow> signUp_catch r profileError t1
                 | Responds _ None \<Rightarrow>
                     (let t2 = t1 @ [Call (LogSecurityEvent (Some uid) signup_success)]
                      in case log_security_event r (Some uid) signup_success of
                           Rejects e \<Rightarrow> signUp_catch r e t2
                         | Responds _ _ \<Rightarrow>
                             (Returns None,
                              t2 @ [Toast ''Account created successfully!''
                                      ''You can now log in with your credentials.'' False]))))"

definition signIn_catch ::
  "remote \<Rightarrow> string \<Rightarrow> effect list \<Rightarrow> string option completion \<times> effect list" where
  "signIn_catch r error done =
     (let tr = done @ [ConsoleError ''[Security] Login error:'',
                       Call (LogSecurityEvent None login_failed)]
      in case log_security_event r None login_failed of
           Rejects e \<Rightarrow> (Throws e, tr)
         | Responds _ _ \<Rightarrow> (Returns (Some error), tr))"

definition welcome_back :: effect where
  "welcome_back = Toast ''Welcome back!'' ''You have successfully logged in.'' False"

definition signIn ::
  "remote \<Rightarrow> string \<Rightarrow> string \<Rightarrow> string option completion \<times> effect list" where
  "signIn r email_arg password_arg =
     (let t0 = [Call (AuthSignInWithPassword email_arg password_arg)]
      in case auth_signInWithPassword r email_arg password_arg of
           Rejects e \<Rightarrow> signIn_catch r e t0
         | Responds _ (Some error) \<Rightarrow> signIn_catch r error t0
         | Responds None None \<Rightarrow> (Returns None, t0 @ [welcome_back])
         | Responds (Some uid) None \<Rightarrow>
             (let t1 = t0 @ [Call (ProfilesUpdateLastLogin uid)]
              in case profiles_update_last_login r uid of
                   Rejects e \<Rightarrow> signIn_catch r e t1
                 | Responds _ _ \<Rightarrow>
                     (let t2 = t1 @ [Call (LogSecurityEvent (Some uid) login_success)]
                      in case log_security_event r (Some uid) login_success of
                           Rejects e \<Rightarrow> signIn_catch r e t2
                         | Responds _ _ \<Rightarrow> (Returns None, t2 @ [welcome_back]))))"

text \<open>\<open>signOut\<close> reads the signed-in user of the hook's state (\<open>user?.id\<close>).\<close>

definition signOut ::
  "remote \<Rightarrow> user_id option \<Rightarrow> string option completion \<times> effect list" where
  "signOut r currentUserId =
     (let t0 = [Call AuthSignOut];
          caught = (\<lambda>error done. (Returns (Some error),
                                    done @ [ConsoleError ''[Security] Logout error:'']))
      in case auth_signOut r of
           Rejects e \<Rightarrow> caught e t0
         | Responds _ (Some error) \<Rightarrow> caught error t0
         | Responds _ None \<Rightarrow>
             (let signed_out = Toast ''Signed out successfully'' ''You have been logged out.'' False
              in case currentUserId of
                   None \<Rightarrow> (Returns None, t0 @ [signed_out])
                 | Some uid \<Rightarrow>
                     (let t1 = t0 @ [Call (LogSecurityEvent (Some uid) logout_success)]
                      in case log_security_event r (Some uid) logout_success of
                           Rejects e \<Rightarrow> caught e t1
                         | Responds _ _ \<Rightarrow> (Returns None, t1 @ [signed_out]))))"

section \<open>The login page of Login.tsx\<close>

definition MAX_LOGIN_ATTEMPTS :: int where
  "MAX_LOGIN_ATTEMPTS = 5"

definition LOCKOUT_DURATION :: int where
  "LOCKOUT_DURATION = 15 * 60 * 1000"

text \<open>
  The component state and the browser's \<open>localStorage\<close>. \<open>lockoutEndTime\<close> is a
  number of epoch milliseconds or null. The current time, \<open>Date.now()\<close>, is an argument
  of every step.
\<close>

record login_page =
  isLoading :: bool
  loginAttempts :: number
  isLocked :: bool
  lockoutEndTime :: "int option"
  localStorage :: "string \<rightharpoonup> string"

definition initial_page :: "(string \<rightharpoonup> string) \<Rightarrow> login_page" where
  "initial_page storage =
     \<lparr>isLoading = False, loginAttempts = Num 0, isLocked = False, lockoutEndTime = None,
      localStorage = storage\<rparr>"

definition remove_lockout_keys :: "(string \<rightharpoonup> string) \<Rightarrow> (string \<rightharpoonup> string)" where
  "remove_lockout_keys storage = storage(''loginLockoutEnd'' := None, ''loginAttempts'' := None)"

text \<open>
  The effect that runs once when the page is mounted (``Check for existing lockout''). A
  stored string is used when it is present and not empty. The attempts are read after the
  lockout keys may have been removed.
\<close>

definition check_existing_lockout :: "int \<Rightarrow> login_page \<Rightarrow> login_page" where
  "check_existing_lockout now s =
     (let s1 =
        (case localStorage s ''loginLockoutEnd'' of
           None \<Rightarrow> s
         | Some lockoutEnd \<Rightarrow>
             if lockoutEnd = [] then s
             else (case parseInt lockoutEnd of
                     Num endTime \<Rightarrow>
                       if now < endTime
                       then s\<lparr>isLocked := True, lockoutEndTime := Some endTime\<rparr>
                       else s\<lparr>localStorage := remove_lockout_keys (localStorage s)\<rparr>
                   | NaN \<Rightarrow> s\<lparr>localStorage := remove_lockout_keys (localStorage s)\<rparr>))
      in case localStorage s1 ''loginAttempts'' of
           None \<Rightarrow> s1
         | Some attempts \<Rightarrow>
             if attempts = [] then s1 else s1\<lparr>loginAttempts := parseInt attempts\<rparr>)"

definition mount :: "int \<Rightarrow> (string \<rightharpoonup> string) \<Rightarrow> login_page" where
  "mount now storage = check_existing_lockout now (initial_page storage)"

text \<open>
  The countdown effect installs its one-second interval only while \<open>isLocked\<close> holds and
  \<open>lockoutEndTime\<close> is truthy (neither null nor 0). \<open>countdown_tick\<close> is one firing of
  the interval, and the identity when no interval is installed.
\<close>

definition countdown_active :: "login_page \<Rightarrow> bool" where
  "countdown_active s =
     (\<not> (\<not> isLocked s \<or> (case lockoutEndTime s of None \<Rightarrow> True | Some t \<Rightarrow> t = 0)))"

definition countdown_tick :: "int \<Rightarrow> login_page \<Rightarrow> login_page" where
  "countdown_tick now s =
     (if \<not> countdown_active s then s
      else case lockoutEndTime s of
             None \<Rightarrow> s
           | Some endTime \<Rightarrow>
               if now \<ge> endTime
               then s\<lparr>isLocked := False, lockoutEndTime := None, loginAttempts := Num 0,
                      localStorage := remove_lockout_keys (localStorage s)\<rparr>
               else s)"

text \<open>
  \<open>onSubmit\<close>, branch by branch. \<open>Math.ceil\<close> of the remaining minutes is the integer
  ceiling of the quotient; a null \<open>lockoutEndTime\<close> counts as 0 in the subtraction.
\<close>

definition remaining_minutes :: "int \<Rightarrow> int option \<Rightarrow> int" where
  "remaining_minutes now lockoutEnd =
     - ((now - (case lockoutEnd of None \<Rightarrow> 0 | Some t \<Rightarrow> t)) div (1000 * 60))"

definition locked_toast :: "int \<Rightarrow> login_page \<Rightarrow> effect" where
  "locked_toast now s =
     Toast ''Account temporarily locked''
       (''Too many failed attempts. Please try again in '' @
        toString (remaining_minutes now (lockoutEndTime s)) @ '' minute(s).'') True"

definition unexpected_error_toast :: effect where
  "unexpected_error_toast =
     Toast ''Error'' ''An unexpected error occurred. Please try again.'' True"

text \<open>The server reports the rate limit as exceeded: lines 117 to 131.\<close>

definition server_lockout :: "rate_limit_check \<Rightarrow> login_page \<Rightarrow> login_page \<times> effect list" where
  "server_lockout rateLimitCheck s =
     (let lockoutUntil = (case lockout_until rateLimitCheck of None \<Rightarrow> 0 | Some t \<Rightarrow> t)
      in (s\<lparr>isLocked := True, lockoutEndTime := Some lockoutUntil, isLoading := False,
            localStorage := (localStorage s)
              (''loginLockoutEnd'' \<mapsto> toString lockoutUntil,
               ''loginAttempts'' \<mapsto> toString MAX_LOGIN_ATTEMPTS)\<rparr>,
          [Toast ''Too many failed attempts''
             (case message rateLimitCheck of
                None \<Rightarrow> ''Your account has been temporarily locked.''
              | Some m \<Rightarrow> if m = [] then ''Your account has been temporarily locked.'' else m)
             True]))"

text \<open>
  The sign-in returned an error: lines 143 to 154. The count of remaining attempts is
  \<open>rateLimitCheck?.attempts_remaining ?? MAX_LOGIN_ATTEMPTS\<close>.
\<close>

definition reported_remaining :: "rate_limit_check option \<Rightarrow> int" where
  "reported_remaining rateLimitCheck =
     (case rateLimitCheck of
        None \<Rightarrow> MAX_LOGIN_ATTEMPTS
      | Some c \<Rightarrow> (case attempts_remaining c of None \<Rightarrow> MAX_LOGIN_ATTEMPTS | Some n \<Rightarrow> n))"

definition login_failed_update ::
  "rate_limit_check option \<Rightarrow> login_page \<Rightarrow> login_page \<times> effect list" where
  "login_failed_update rateLimitCheck s =
     (let attemptsRemaining = reported_remaining rateLimitCheck;
          newAttempts = MAX_LOGIN_ATTEMPTS - attemptsRemaining + 1
      in (s\<lparr>loginAttempts := Num newAttempts, isLoading := False,
            localStorage := (localStorage s)(''loginAttempts'' \<mapsto> toString newAttempts)\<rparr>,
          [Toast ''Login failed''
             (''Invalid credentials. '' @ toString (max 0 (attemptsRemaining - 1)) @
              '' attempt(s) remaining.'') True]))"

text \<open>The sign-in returned no error: lines 155 to 161.\<close>

definition login_succeeded :: "login_page \<Rightarrow> login_page \<times> effect list" where
  "login_succeeded s =
     (s\<lparr>loginAttempts := Num 0, isLoading := False,
        localStorage := remove_lockout_keys (localStorage s)\<rparr>,
      [Navigate ''/dashboard''])"

definition attempt_login ::
  "remote \<Rightarrow> login_form \<Rightarrow> rate_limit_check option \<Rightarrow> login_page \<Rightarrow> login_page \<times> effect list"
  where
  "attempt_login r d rateLimitCheck s =
     (case signIn r (email d) (password d) of
        (Throws e, t1) \<Rightarrow> (s\<lparr>isLoading := False\<rparr>, t1 @ [unexpected_error_toast])
      | (Returns error, t1) \<Rightarrow>
          (let t2 = t1 @ [Call (RecordLoginAttempt (email d) (error = None))]
           in case record_login_attempt r (email d) (error = None) of
                Rejects e \<Rightarrow> (s\<lparr>isLoading := False\<rparr>, t2 @ [unexpected_error_toast])
              | Responds _ _ \<Rightarrow>
                  (case (if error \<noteq> None then login_failed_update rateLimitCheck s
                         else login_succeeded s) of
                     (s', t3) \<Rightarrow> (s', t2 @ t3))))"

definition onSubmit ::
  "remote \<Rightarrow> login_form \<Rightarrow> int \<Rightarrow> login_page \<Rightarrow> login_page \<times> effect list" where
  "onSubmit r d now s =
     (if isLocked s then (s, [locked_toast now s])
      else
        (let t0 = [Call (CheckRateLimit (email d) MAX_LOGIN_ATTEMPTS 15)]
         in case check_rate_limit r (email d) MAX_LOGIN_ATTEMPTS 15 of
              Rejects e \<Rightarrow> (s\<lparr>isLoading := False\<rparr>, t0 @ [unexpected_error_toast])
            | Responds rateLimitCheck rateLimitError \<Rightarrow>
                (let t1 = t0 @ (case rateLimitError of
                                  None \<Rightarrow> []
                                | Some e \<Rightarrow> [ConsoleError ''Rate limit check error:''])
                 in case (case rateLimitCheck of
                            None \<Rightarrow> attempt_login r d rateLimitCheck s
                          | Some c \<Rightarrow>
                              if \<not> allowed c then server_lockout c s
                              else attempt_login r d rateLimitCheck s) of
                      (s', t2) \<Rightarrow> (s', t1 @ t2))))"

definition remote_calls :: "effect list \<Rightarrow> remote_call list" where
  "remote_calls tr = concat (map (\<lambda>e. case e of Call c \<Rightarrow> [c] | _ \<Rightarrow> []) tr)"

definition console_output :: "effect list \<Rightarrow> string list" where
  "console_output tr = concat (map (\<lambda>e. case e of ConsoleError m \<Rightarrow> [m] | _ \<Rightarrow> []) tr)"

text \<open>
  The states the page can be in: it is mounted on empty storage, and from then on it is
  remounted on the storage it left behind (a restart), its interval fires, or a form is
  submitted. A submission is answered by a platform whose rate-limit check, when it allows
  the login, reports between 1 and \<open>MAX_LOGIN_ATTEMPTS\<close> attempts as remaining.
\<close>

definition rate_limit_contract :: "rate_limit_check option response \<Rightarrow> bool" where
  "rate_limit_contract reply =
     (case reply of
        Responds (Some c) _ \<Rightarrow>
          (case attempts_remaining c of
             Some n \<Rightarrow> \<not> allowed c \<or> (1 \<le> n \<and> n \<le> MAX_LOGIN_ATTEMPTS)
           | None \<Rightarrow> True)
      | _ \<Rightarrow> True)"

inductive reachable :: "login_page \<Rightarrow> bool" where
  first_visit: "reachable (mount now Map.empty)"
| restart: "reachable s \<Longrightarrow> reachable (mount now (localStorage s))"
| tick: "reachable s \<Longrightarrow> reachable (countdown_tick now s)"
| submit: "reachable s \<Longrightarrow>
           rate_limit_contract (check_rate_limit r (email d) MAX_LOGIN_ATTEMPTS 15) \<Longrightarrow>
           reachable (fst (onSubmit r d now s))"

section \<open>A test double of the platform and runs of submissions\<close>

text \<open>
  A platform that answers every call: the rate-limit check with the given data, the
  password sign-in by accepting or refusing the credentials, the audit log with the given
  reply, and everything else with success.
\<close>

definition test_platform :: "rate_limit_check option \<Rightarrow> bool \<Rightarrow> unit response \<Rightarrow> remote" where
  "test_platform rateLimit credentials_ok audit_reply =
     \<lparr>check_rate_limit = (\<lambda>_ _ _. Responds rateLimit None),
      record_login_attempt = (\<lambda>_ _. Responds () None),
      auth_signUp = (\<lambda>_ _. Responds (Some ''user-1'') None),
      auth_signInWithPassword =
        (\<lambda>_ _. if credentials_ok then Responds (Some ''user-1'') None
                else Responds None (Some ''Invalid login credentials'')),
      auth_signOut = Responds () None,
      profiles_insert = (\<lambda>_ _ _. Responds () None),
      profiles_update_last_login = (\<lambda>_. Responds () None),
      log_security_event = (\<lambda>_ _. audit_reply)\<rparr>"

definition allow_with :: "int \<Rightarrow> rate_limit_check" where
  "allow_with n =
     \<lparr>allowed = True, lockout_until = None, attempts_remaining = Some n, message = None\<rparr>"

definition deny_until :: "int \<Rightarrow> rate_limit_check" where
  "deny_until t =
     \<lparr>allowed = False, lockout_until = Some t, attempts_remaining = Some 0, message = None\<rparr>"

text \<open>
  The platform refuses the password and reports \<open>n\<close> attempts as remaining; the platform
  reports the rate limit as exceeded until time \<open>t\<close>; the platform accepts the password
  and fails to write the audit log, reporting the failure in its reply.
\<close>

definition wrong_password :: "int \<Rightarrow> remote" where
  "wrong_password n = test_platform (Some (allow_with n)) False (Responds () None)"

definition rate_limited :: "int \<Rightarrow> remote" where
  "rate_limited t = test_platform (Some (deny_until t)) False (Responds () None)"

definition audit_failing :: remote where
  "audit_failing =
     test_platform (Some (allow_with 5)) True (Responds () (Some ''violates check constraint''))"

definition audit_rejecting :: remote where
  "audit_rejecting = test_platform (Some (allow_with 5)) True (Rejects ''Failed to fetch'')"

definition some_login :: login_form where
  "some_login = \<lparr>email = ''user@example.com'', password = ''guess''\<rparr>"

fun run_submissions :: "(remote \<times> login_form \<times> int) list \<Rightarrow> login_page \<Rightarrow> login_page" where
  "run_submissions [] s = s"
| "run_submissions ((r, d, now) # rest) s = run_submissions rest (fst (onSubmit r d now s))"

definition two_failed_logins :: "(remote \<times> login_form \<times> int) list" where
  "two_failed_logins =
     [(wrong_password 5, some_login, 1000), (wrong_password 4, some_login, 2000)]"

definition five_failed_logins :: "(remote \<times> login_form \<times> int) list" where
  "five_failed_logins =
     two_failed_logins @
     [(wrong_password 3, some_login, 3000), (wrong_password 2, some_login, 4000),
      (wrong_password 1, some_login, 5000)]"

text \<open>The page of a first visit, and the page after the platform has reported a lockout.\<close>

definition fresh_page :: login_page where
  "fresh_page = mount 0 Map.empty"

definition locked_page :: login_page where
  "locked_page = fst (onSubmit (rate_limited 900000) some_login 1000 fresh_page)"

text \<open>
  A denial whose \<open>lockout_until\<close> is null, and the page after the platform has answered
  a submission with it.
\<close>

definition deny_without_end :: rate_limit_check where
  "deny_without_end =
     \<lparr>allowed = False, lockout_until = None, attempts_remaining = Some 0, message = None\<rparr>"

definition rate_limited_without_end :: remote where
  "rate_limited_without_end = test_platform (Some deny_without_end) False (Responds () None)"

definition stuck_page :: login_page where
  "stuck_page = fst (onSubmit rate_limited_without_end some_login 1000 fresh_page)"

definition resolves :: "'a response \<Rightarrow> bool" where
  "resolves reply = (case reply of Rejects _ \<Rightarrow> False | Responds _ _ \<Rightarrow> True)"

text \<open>
  The invariant of the reachable pages: the counter is in range, the lock flag and the
  lockout end are set together, and a stored counter parses to a number in range.
\<close>

definition stored_attempts_ok :: "string option \<Rightarrow> bool" where
  "stored_attempts_ok v =
     (case v of None \<Rightarrow> True
      | Some a \<Rightarrow> a = [] \<or> (\<exists>n. parseInt a = Num n \<and> 0 \<le> n \<and> n \<le> MAX_LOGIN_ATTEMPTS))"

definition guard_inv :: "login_page \<Rightarrow> bool" where
  "guard_inv s =
     ((\<exists>n. loginAttempts s = Num n \<and> 0 \<le> n \<and> n \<le> MAX_LOGIN_ATTEMPTS) \<and>
      (lockoutEndTime s \<noteq> None \<longleftrightarrow> isLocked s) \<and>
      stored_attempts_ok (localStorage s ''loginAttempts''))"

section \<open>Properties of the validation schemas\<close>

lemma run_checks_password:
  "run_checks passwordSchema p =
     ((if length p < 8 then [''Password must be at least 8 characters''] else []) @
      (if \<not> list_ex is_upper p
       then [''Password must contain at least one uppercase letter''] else []) @
      (if \<not> list_ex is_lower p
       then [''Password must contain at least one lowercase letter''] else []) @
      (if \<not> list_ex is_digit p
       then [''Password must contain at least one number''] else []) @
      (if \<not> list_ex (\<lambda>c. \<not> is_alnum c) p
       then [''Password must contain at least one special character''] else []), p)"
  by (simp add: run_checks_def passwordSchema_def)

lemma passwordSchema_accepts_iff:
  "safeParse passwordSchema p = Inr v \<longleftrightarrow>
     v = p \<and> 8 \<le> length p \<and> list_ex is_upper p \<and> list_ex is_lower p \<and>
     list_ex is_digit p \<and> list_ex (\<lambda>c. \<not> is_alnum c) p"
  unfolding safeParse_def run_checks_password
  by (auto simp: not_less split: if_splits)

lemma run_checks_min:
  "run_checks [Min n msg] pw = (if length pw < n then [msg] else [], pw)"
  by (simp add: run_checks_def)

subsection \<open>The email pattern and white space\<close>

lemma split_on_nonempty: "split_on c s \<noteq> []"
  by (induction s) (auto split: list.splits)

lemma split_on_hd:
  "split_on c s = p # ps \<Longrightarrow> p \<noteq> [] \<Longrightarrow> s \<noteq> [] \<and> hd s = hd p"
  by (cases s) (auto split: if_splits list.splits)

lemma split_on_single: "split_on c s = [p] \<Longrightarrow> p = s"
  by (induction s arbitrary: p) (auto simp: split_on_nonempty split: if_splits list.splits)

lemma split_on_last:
  "last (split_on c s) \<noteq> [] \<Longrightarrow> s \<noteq> [] \<and> last s = last (last (split_on c s))"
proof (induction s)
  case Nil
  then show ?case by simp
next
  case (Cons x xs)
  show ?case
  proof (cases "x = c")
    case True
    with Cons.prems have "last (split_on c xs) \<noteq> []"
      by (simp add: split_on_nonempty)
    with Cons.IH True show ?thesis by (simp add: split_on_nonempty)
  next
    case False
    obtain p ps where sp: "split_on c xs = p # ps"
      using split_on_nonempty [of c xs] by (cases "split_on c xs") auto
    show ?thesis
    proof (cases ps)
      case Nil
      with sp have "p = xs" by (simp add: split_on_single)
      with sp Nil False show ?thesis by simp
    next
      case (Cons q qs)
      with sp False Cons.prems have "last (split_on c xs) \<noteq> []" by simp
      with Cons.IH have "xs \<noteq> [] \<and> last xs = last (last (split_on c xs))" by simp
      with sp False Cons show ?thesis by simp
    qed
  qed
qed

lemma alnum_not_space: "is_alnum c \<Longrightarrow> \<not> is_space c"
  by (auto simp: is_alnum_def is_upper_def is_lower_def is_digit_def is_space_def code_unit_def)

lemma punctuation_not_space: "c \<in> set ''_+-.'' \<or> c = CHR 0x27 \<Longrightarrow> \<not> is_space c"
  by (auto simp: is_space_def code_unit_def)

lemma local_char_not_space: "local_char c \<or> local_last_char c \<Longrightarrow> \<not> is_space c"
  using alnum_not_space [of c] punctuation_not_space [of c]
  by (auto simp: local_char_def local_last_char_def)

text \<open>A string that matches the email pattern neither starts nor ends with white space.\<close>

lemma emailRegex_ends:
  assumes "emailRegex s"
  shows "s \<noteq> [] \<and> \<not> is_space (hd s) \<and> \<not> is_space (last s)"
proof -
  from assms obtain lp dp where sp: "split_on (CHR ''@'') s = [lp, dp]"
    and lne: "lp \<noteq> []" and lc: "list_all local_char (butlast lp)"
    and ll: "local_last_char (last lp)"
    and tld: "tld_ok (last (split_on (CHR ''.'') dp))"
    by (auto simp: emailRegex_def Let_def split: list.splits)
  from split_on_hd [OF sp lne] have s: "s \<noteq> []" and h: "hd s = hd lp" by simp_all
  have "local_char (hd lp) \<or> local_last_char (hd lp)"
  proof (cases "butlast lp")
    case Nil
    with lne have "lp = [last lp]" by (metis append_butlast_last_id append_Nil)
    then have "hd lp = last lp" by (metis list.sel(1))
    with ll show ?thesis by simp
  next
    case (Cons a as)
    with lne have "hd lp = a"
      by (metis append_butlast_last_id hd_append2 list.sel(1) list.distinct(1))
    moreover from lc Cons have "local_char a" by simp
    ultimately show ?thesis by simp
  qed
  then have first: "\<not> is_space (hd s)" using local_char_not_space h by simp
  let ?t = "last (split_on (CHR ''.'') dp)"
  from tld have tne: "?t \<noteq> []" by (auto simp: tld_ok_def)
  then have "last ?t \<in> set ?t" by simp
  with tld have tl: "is_upper (last ?t) \<or> is_lower (last ?t)"
    by (auto simp: tld_ok_def list_all_iff)
  from split_on_last [OF tne] have dne: "dp \<noteq> []" and dl: "last dp = last ?t" by simp_all
  from sp dne have "last (split_on (CHR ''@'') s) \<noteq> []" by simp
  from split_on_last [OF this] sp have "last s = last dp" by simp
  with dl tl have "is_alnum (last s)" by (auto simp: is_alnum_def)
  then have "\<not> is_space (last s)" by (rule alnum_not_space)
  with s first show ?thesis by simp
qed

lemma dropWhile_keeps: "s \<noteq> [] \<Longrightarrow> \<not> P (hd s) \<Longrightarrow> dropWhile P s = s"
  by (cases s) simp_all

lemma trim_id:
  assumes "s \<noteq> []" and "\<not> is_space (hd s)" and "\<not> is_space (last s)"
  shows "trim s = s"
proof -
  have "dropWhile is_space s = s" using assms(1,2) by (rule dropWhile_keeps)
  moreover have "dropWhile is_space (rev s) = rev s"
    using assms(1,3) by (intro dropWhile_keeps) (simp_all add: hd_rev)
  ultimately show ?thesis by (simp add: trim_def)
qed

text \<open>
  The \<open>trim\<close> of the email schema is idle: an input that the schema accepts has no
  white space to strip, and the parsed value is the input in lower case. An input with
  white space at either end is reported as an invalid email address.
\<close>

lemma emailSchema_trim_is_idle:
  assumes "safeParse emailSchema s = Inr v"
  shows "trim s = s \<and> v = toLowerCase s"
proof -
  from assms have e: "emailRegex s" and v: "v = toLowerCase (trim s)"
    by (auto simp: safeParse_def emailSchema_def run_checks_def split: if_splits)
  from emailRegex_ends [OF e] have "trim s = s" by (simp add: trim_id)
  with v show ?thesis by simp
qed

lemma emailSchema_padded_rejected:
  "s \<noteq> [] \<Longrightarrow> is_space (hd s) \<or> is_space (last s) \<Longrightarrow>
     ''Invalid email address'' \<in> set (fst (run_checks emailSchema s))"
  using emailRegex_ends [of s]
  by (auto simp: emailSchema_def run_checks_def)

text \<open>Without padding, an address in mixed case is accepted and lower-cased.\<close>

lemma emailSchema_lowercases:
  "safeParse emailSchema ''Test@Example.com'' = Inr ''test@example.com''"
  by code_simp

text \<open>
  C4. The claim: email validation trims and lower-cases its input, and validating
  \<open>"  Test@Example.com  "\<close> succeeds with \<open>"test@example.com"\<close>. The schema chains
  \<open>.email()\<close> before \<open>.trim()\<close>, so the pattern is matched against the untrimmed input:
  the padded address is reported as an invalid email address.
\<close>

theorem emailSchema_rejects_padded_input:
  "safeParse emailSchema ''  Test@Example.com  '' = Inl [''Invalid email address'']"
  by code_simp

text \<open>
  C5. Password validation succeeds exactly on the passwords that have at least 8
  characters, an uppercase letter, a lowercase letter, a digit and a character that is
  neither letter nor digit; on any other password it fails, and the issues are the
  messages of the unmet conditions, one for each, in the order of the chain.
\<close>

theorem passwordSchema_reports_each_unmet_condition:
  "safeParse passwordSchema p =
     (if 8 \<le> length p \<and> (\<exists>c\<in>set p. is_upper c) \<and> (\<exists>c\<in>set p. is_lower c) \<and>
         (\<exists>c\<in>set p. is_digit c) \<and> (\<exists>c\<in>set p. \<not> is_alnum c)
      then Inr p
      else Inl ((if length p < 8 then [''Password must be at least 8 characters''] else []) @
                (if \<not> (\<exists>c\<in>set p. is_upper c)
                 then [''Password must contain at least one uppercase letter''] else []) @
                (if \<not> (\<exists>c\<in>set p. is_lower c)
                 then [''Password must contain at least one lowercase letter''] else []) @
                (if \<not> (\<exists>c\<in>set p. is_digit c)
                 then [''Password must contain at least one number''] else []) @
                (if \<not> (\<exists>c\<in>set p. \<not> is_alnum c)
                 then [''Password must contain at least one special character''] else [])))"
  unfolding safeParse_def run_checks_password list_ex_iff
  by (simp add: not_less)

theorem passwordSchema_reports_each_unmet_condition_witness:
  "safeParse passwordSchema ''SecurePass123!'' = Inr ''SecurePass123!'' \<and>
   safeParse passwordSchema ''weak'' =
     Inl [''Password must be at least 8 characters'',
          ''Password must contain at least one uppercase letter'',
          ''Password must contain at least one number'',
          ''Password must contain at least one special character'']"
  using passwordSchema_reports_each_unmet_condition [of "''SecurePass123!''"]
        passwordSchema_reports_each_unmet_condition [of "''weak''"]
  by (simp add: is_upper_def is_lower_def is_digit_def is_alnum_def code_unit_def)

text \<open>
  C9. Login validation accepts every password of at least one character next to an email
  that the email schema accepts; the complexity rules are those of the password schema,
  which only the signup schema applies to its password field.
\<close>

theorem loginSchema_accepts_any_nonempty_password:
  "(safeParse emailSchema e = Inr e' \<and> 1 \<le> length pw \<longrightarrow>
      loginSchema \<lparr>email = e, password = pw\<rparr> = Inr \<lparr>email = e', password = pw\<rparr>) \<and>
   (signupSchema d = Inr d' \<longrightarrow> safeParse passwordSchema (password d) = Inr (password d'))"
proof (intro conjI impI)
  assume a: "safeParse emailSchema e = Inr e' \<and> 1 \<le> length pw"
  then show "loginSchema \<lparr>email = e, password = pw\<rparr> = Inr \<lparr>email = e', password = pw\<rparr>"
    by (auto simp: loginSchema_def safeParse_def run_checks_min at_path_def
             split: prod.splits if_splits)
next
  assume "signupSchema d = Inr d'"
  then show "safeParse passwordSchema (password d) = Inr (password d')"
    by (auto simp: signupSchema_def safeParse_def at_path_def Let_def
             split: prod.splits if_splits)
qed

theorem loginSchema_accepts_any_nonempty_password_witness:
  "loginSchema \<lparr>email = ''user@example.com'', password = ''a''\<rparr> =
     Inr \<lparr>email = ''user@example.com'', password = ''a''\<rparr> \<and>
   safeParse passwordSchema ''a'' =
     Inl [''Password must be at least 8 characters'',
          ''Password must contain at least one uppercase letter'',
          ''Password must contain at least one number'',
          ''Password must contain at least one special character''] \<and>
   safeParse passwordSchema ''Abcdef1!'' = Inr ''Abcdef1!''"
proof -
  let ?d = "\<lparr>email = ''user@example.com'', password = ''Abcdef1!'',
             username = ''abc'', confirmPassword = ''Abcdef1!''\<rparr>"
  have e: "safeParse emailSchema ''user@example.com'' = Inr ''user@example.com''"
    by code_simp
  have l: "1 \<le> length ''a''" by simp
  have s: "signupSchema ?d = Inr ?d" by code_simp
  have p: "safeParse passwordSchema ''a'' =
     Inl [''Password must be at least 8 characters'',
          ''Password must contain at least one uppercase letter'',
          ''Password must contain at least one number'',
          ''Password must contain at least one special character'']" by code_simp
  from loginSchema_accepts_any_nonempty_password
         [of "''user@example.com''" "''user@example.com''" "''a''" ?d ?d] e l s p
  show ?thesis by simp
qed

text \<open>
  C10. Every password that the password schema accepts scores at least 90 of at most 100
  on the signup page's strength meter, and is therefore labelled Strong (70 and above).
\<close>

theorem schema_valid_password_is_strong:
  "safeParse passwordSchema p = Inr v \<Longrightarrow>
     90 \<le> passwordStrength (Some p) \<and> passwordStrength (Some p) \<le> 100 \<and>
     strengthLabel (passwordStrength (Some p)) = ''Strong''"
  unfolding passwordSchema_accepts_iff
  by (auto simp: passwordStrength_def strengthLabel_def)

theorem schema_valid_password_is_strong_witness:
  "safeParse passwordSchema ''Abcdef1!'' = Inr ''Abcdef1!'' \<and>
   passwordStrength (Some ''Abcdef1!'') = 90 \<and>
   strengthLabel (passwordStrength (Some ''Abcdef1!'')) = ''Strong''"
proof -
  have h: "safeParse passwordSchema ''Abcdef1!'' = Inr ''Abcdef1!''" by code_simp
  have s: "passwordStrength (Some ''Abcdef1!'') = 90" by code_simp
  show ?thesis using h s schema_valid_password_is_strong [OF h] by simp
qed

section \<open>Properties of the login guard\<close>

lemma remote_calls_simps:
  "remote_calls [] = []"
  "remote_calls (Call c # tr) = c # remote_calls tr"
  "remote_calls (Toast a b v # tr) = remote_calls tr"
  "remote_calls (ConsoleError m # tr) = remote_calls tr"
  "remote_calls (Navigate p # tr) = remote_calls tr"
  "remote_calls (tr @ tr') = remote_calls tr @ remote_calls tr'"
  by (simp_all add: remote_calls_def)

lemma console_output_simps:
  "console_output [] = []"
  "console_output (Call c # tr) = console_output tr"
  "console_output (Toast a b v # tr) = console_output tr"
  "console_output (ConsoleError m # tr) = m # console_output tr"
  "console_output (Navigate p # tr) = console_output tr"
  "console_output (tr @ tr') = console_output tr @ console_output tr'"
  by (simp_all add: console_output_def)

lemma onSubmit_locked:
  "isLocked s \<Longrightarrow> onSubmit r d now s = (s, [locked_toast now s])"
  by (simp add: onSubmit_def)

lemma onSubmit_server_lockout:
  assumes "\<not> isLocked s"
    and "check_rate_limit r (email d) MAX_LOGIN_ATTEMPTS 15 = Responds (Some c) err"
    and "\<not> allowed c"
  shows "fst (onSubmit r d now s) = fst (server_lockout c s)"
    and "remote_calls (snd (onSubmit r d now s)) =
           [CheckRateLimit (email d) MAX_LOGIN_ATTEMPTS 15]"
  using assms
  by (auto simp: onSubmit_def Let_def server_lockout_def remote_calls_simps
           split: prod.splits option.splits)

lemma onSubmit_attempt:
  assumes "\<not> isLocked s"
    and "check_rate_limit r (email d) MAX_LOGIN_ATTEMPTS 15 = Responds chk err"
    and "case chk of None \<Rightarrow> True | Some c \<Rightarrow> allowed c"
  shows "fst (onSubmit r d now s) = fst (attempt_login r d chk s)"
  using assms
  by (auto simp: onSubmit_def Let_def split: prod.splits option.splits)

lemma attempt_login_failed:
  assumes "fst (signIn r (email d) (password d)) = Returns (Some e)"
    and "record_login_attempt r (email d) False = Responds u re"
  shows "fst (attempt_login r d chk s) = fst (login_failed_update chk s)"
  using assms
  by (auto simp: attempt_login_def Let_def split: prod.splits completion.splits)

lemma login_failed_update_state:
  "fst (login_failed_update chk s) =
     s\<lparr>loginAttempts := Num (MAX_LOGIN_ATTEMPTS - reported_remaining chk + 1),
       isLoading := False,
       localStorage := (localStorage s)
         (''loginAttempts'' \<mapsto> toString (MAX_LOGIN_ATTEMPTS - reported_remaining chk + 1))\<rparr>"
  by (simp add: login_failed_update_def Let_def)

lemma server_lockout_state:
  "fst (server_lockout c s) =
     s\<lparr>isLocked := True,
       lockoutEndTime := Some (case lockout_until c of None \<Rightarrow> 0 | Some t \<Rightarrow> t),
       isLoading := False,
       localStorage := (localStorage s)
         (''loginLockoutEnd'' \<mapsto> toString (case lockout_until c of None \<Rightarrow> 0 | Some t \<Rightarrow> t),
          ''loginAttempts'' \<mapsto> toString MAX_LOGIN_ATTEMPTS)\<rparr>"
  by (simp add: server_lockout_def Let_def)


lemma locked_page_facts:
  "isLocked locked_page"
  "countdown_active locked_page"
  "lockoutEndTime locked_page = Some 900000"
  "localStorage locked_page ''loginLockoutEnd'' = Some ''900000''"
  "localStorage locked_page ''loginAttempts'' = Some ''5''"
  by code_simp+

lemma fresh_page_facts:
  "\<not> isLocked fresh_page"
  "loginAttempts fresh_page = Num 0"
  "lockoutEndTime fresh_page = None"
  by code_simp+

lemma wrong_password_replies:
  "check_rate_limit (wrong_password n) (email some_login) MAX_LOGIN_ATTEMPTS 15 =
     Responds (Some (allow_with n)) None"
  "fst (signIn (wrong_password n) (email some_login) (password some_login)) =
     Returns (Some ''Invalid login credentials'')"
  "record_login_attempt (wrong_password n) (email some_login) False = Responds () None"
  by (simp_all add: wrong_password_def test_platform_def signIn_def signIn_catch_def)

text \<open>
  C1, as the claim states it: the fifth failed login in a row, each refused by the
  platform, which reports 5, 4, 3, 2 and 1 attempts as remaining. The counter reaches 5,
  and the guard is not locked and has no \<open>lockoutEndTime\<close>: \<open>LOCKOUT_DURATION\<close> is
  not used by \<open>onSubmit\<close>.
\<close>

theorem fifth_failed_login_leaves_guard_open:
  "fst (signIn (wrong_password 1) (email some_login) (password some_login)) =
     Returns (Some ''Invalid login credentials'') \<and>
   loginAttempts (run_submissions five_failed_logins fresh_page) = Num 5 \<and>
   isLocked (run_submissions five_failed_logins fresh_page) = False \<and>
   lockoutEndTime (run_submissions five_failed_logins fresh_page) = None \<and>
   lockoutEndTime (run_submissions five_failed_logins fresh_page) \<noteq>
     Some (5000 + LOCKOUT_DURATION) \<and>
   localStorage (run_submissions five_failed_logins fresh_page) ''loginLockoutEnd'' = None"
  by code_simp

text \<open>
  C1, amended. For a submission while the guard is open: the failed login that brings
  the counter to the threshold (the platform had reported one attempt as remaining) sets
  \<open>loginAttempts\<close> to 5 and leaves the guard open, with \<open>lockoutEndTime\<close> and the
  stored lockout end unchanged. The guard becomes locked when the platform's rate-limit
  check reports the login as not allowed: \<open>lockoutEndTime\<close> is then the platform's
  \<open>lockout_until\<close>, both keys are stored, and the rate-limit check is the only call.
\<close>

theorem lockout_follows_server_verdict:
  assumes "\<not> isLocked s"
    and "check_rate_limit r (email d) MAX_LOGIN_ATTEMPTS 15 = Responds (Some c) err"
  shows
    "(allowed c \<and> attempts_remaining c = Some 1 \<and>
      fst (signIn r (email d) (password d)) = Returns (Some e) \<and>
      record_login_attempt r (email d) False = Responds u re \<longrightarrow>
        loginAttempts (fst (onSubmit r d now s)) = Num MAX_LOGIN_ATTEMPTS \<and>
        isLocked (fst (onSubmit r d now s)) = False \<and>
        lockoutEndTime (fst (onSubmit r d now s)) = lockoutEndTime s \<and>
        localStorage (fst (onSubmit r d now s)) ''loginLockoutEnd'' =
          localStorage s ''loginLockoutEnd'') \<and>
     (\<not> allowed c \<longrightarrow>
        isLocked (fst (onSubmit r d now s)) = True \<and>
        lockoutEndTime (fst (onSubmit r d now s)) =
          Some (case lockout_until c of None \<Rightarrow> 0 | Some t \<Rightarrow> t) \<and>
        localStorage (fst (onSubmit r d now s)) ''loginLockoutEnd'' =
          Some (toString (case lockout_until c of None \<Rightarrow> 0 | Some t \<Rightarrow> t)) \<and>
        localStorage (fst (onSubmit r d now s)) ''loginAttempts'' =
          Some (toString MAX_LOGIN_ATTEMPTS) \<and>
        remote_calls (snd (onSubmit r d now s)) =
          [CheckRateLimit (email d) MAX_LOGIN_ATTEMPTS 15])"
proof (intro conjI impI)
  assume a: "allowed c \<and> attempts_remaining c = Some 1 \<and>
      fst (signIn r (email d) (password d)) = Returns (Some e) \<and>
      record_login_attempt r (email d) False = Responds u re"
  have st: "fst (onSubmit r d now s) = fst (login_failed_update (Some c) s)"
    using onSubmit_attempt [OF assms] attempt_login_failed a by simp
  have n: "MAX_LOGIN_ATTEMPTS - reported_remaining (Some c) + 1 = MAX_LOGIN_ATTEMPTS"
    using a by (simp add: reported_remaining_def)
  show "loginAttempts (fst (onSubmit r d now s)) = Num MAX_LOGIN_ATTEMPTS"
    by (simp add: st login_failed_update_state n)
  show "isLocked (fst (onSubmit r d now s)) = False"
    using assms(1) by (simp add: st login_failed_update_state)
  show "lockoutEndTime (fst (onSubmit r d now s)) = lockoutEndTime s"
    by (simp add: st login_failed_update_state)
  show "localStorage (fst (onSubmit r d now s)) ''loginLockoutEnd'' =
          localStorage s ''loginLockoutEnd''"
    by (simp add: st login_failed_update_state)
next
  assume a: "\<not> allowed c"
  note st = onSubmit_server_lockout [OF assms a]
  show "isLocked (fst (onSubmit r d now s)) = True"
    by (simp add: st server_lockout_state)
  show "lockoutEndTime (fst (onSubmit r d now s)) =
          Some (case lockout_until c of None \<Rightarrow> 0 | Some t \<Rightarrow> t)"
    by (simp add: st server_lockout_state)
  show "localStorage (fst (onSubmit r d now s)) ''loginLockoutEnd'' =
          Some (toString (case lockout_until c of None \<Rightarrow> 0 | Some t \<Rightarrow> t))"
    by (simp add: st server_lockout_state)
  show "localStorage (fst (onSubmit r d now s)) ''loginAttempts'' =
          Some (toString MAX_LOGIN_ATTEMPTS)"
    by (simp add: st server_lockout_state)
  show "remote_calls (snd (onSubmit r d now s)) =
          [CheckRateLimit (email d) MAX_LOGIN_ATTEMPTS 15]"
    by (rule st)
qed

theorem lockout_follows_server_verdict_witness:
  "loginAttempts (fst (onSubmit (wrong_password 1) some_login 5000 fresh_page)) = Num 5 \<and>
   isLocked (fst (onSubmit (wrong_password 1) some_login 5000 fresh_page)) = False \<and>
   lockoutEndTime (fst (onSubmit (wrong_password 1) some_login 5000 fresh_page)) = None \<and>
   isLocked (fst (onSubmit (rate_limited 900000) some_login 6000 fresh_page)) = True \<and>
   lockoutEndTime (fst (onSubmit (rate_limited 900000) some_login 6000 fresh_page)) =
     Some 900000 \<and>
   remote_calls (snd (onSubmit (rate_limited 900000) some_login 6000 fresh_page)) =
     [CheckRateLimit ''user@example.com'' 5 15]"
proof -
  have open_now: "\<not> isLocked fresh_page" by (rule fresh_page_facts)
  have denied: "check_rate_limit (rate_limited 900000) (email some_login) MAX_LOGIN_ATTEMPTS 15 =
      Responds (Some (deny_until 900000)) None"
    by (simp add: rate_limited_def test_platform_def)
  have a1: "allowed (allow_with 1)" "attempts_remaining (allow_with 1) = Some 1"
    by (simp_all add: allow_with_def)
  have a2: "\<not> allowed (deny_until 900000)" "lockout_until (deny_until 900000) = Some 900000"
    by (simp_all add: deny_until_def)
  from lockout_follows_server_verdict
         [OF open_now wrong_password_replies(1),
          of 1 "''Invalid login credentials''" "()" None 5000]
       lockout_follows_server_verdict [OF open_now denied, of e u re 6000 for e u re]
       a1 a2 wrong_password_replies(2,3) [of 1] fresh_page_facts
  show ?thesis
    by (simp add: MAX_LOGIN_ATTEMPTS_def some_login_def)
qed

text \<open>
  C2. A submission while \<open>isLocked\<close> is set is rejected locally: the state is unchanged,
  the only effect is the lockout toast, and no call goes to the platform, neither the
  rate-limit check nor the sign-in nor the recording of the attempt.
\<close>

theorem locked_submission_makes_no_remote_call:
  "isLocked s \<Longrightarrow>
     fst (onSubmit r d now s) = s \<and>
     snd (onSubmit r d now s) = [locked_toast now s] \<and>
     remote_calls (snd (onSubmit r d now s)) = []"
  by (simp add: onSubmit_locked locked_toast_def remote_calls_simps)

theorem locked_submission_makes_no_remote_call_witness:
  "isLocked locked_page \<and> lockoutEndTime locked_page = Some 900000 \<and>
   fst (onSubmit (wrong_password 1) some_login 2000 locked_page) = locked_page \<and>
   remote_calls (snd (onSubmit (wrong_password 1) some_login 2000 locked_page)) = []"
  using locked_submission_makes_no_remote_call
          [OF locked_page_facts(1), of "wrong_password 1" some_login 2000]
        locked_page_facts(1,3)
  by blast




text \<open>A restart does reopen that page: the stored lockout end parses to 0.\<close>

lemma stuck_page_reopens_on_restart:
  "isLocked (mount 5000 (localStorage stuck_page)) = False"
  "lockoutEndTime (mount 5000 (localStorage stuck_page)) = None"
  "localStorage (mount 5000 (localStorage stuck_page)) ''loginLockoutEnd'' = None"
  by code_simp+



text \<open>
  C6, as the claim states it: after two failed logins the counter is 2 and the guard is
  open; a third failed login, for which the platform reports 5 attempts as remaining,
  sets the counter to 1, not to 3.
\<close>

theorem failed_login_counter_follows_server_count:
  "loginAttempts (run_submissions two_failed_logins fresh_page) = Num 2 \<and>
   isLocked (run_submissions two_failed_logins fresh_page) = False \<and>
   fst (signIn (wrong_password 5) (email some_login) (password some_login)) =
     Returns (Some ''Invalid login credentials'') \<and>
   loginAttempts (fst (onSubmit (wrong_password 5) some_login 3000
       (run_submissions two_failed_logins fresh_page))) = Num 1"
  by code_simp

text \<open>
  C6, amended. For every failed login submission while the guard is open and the platform
  allows the attempt, the guard stays open and the counter becomes
  \<open>MAX_LOGIN_ATTEMPTS - attemptsRemaining + 1\<close>, where \<open>attemptsRemaining\<close> is the
  count the rate-limit check reported (\<open>MAX_LOGIN_ATTEMPTS\<close> when it reported none); the
  same number is stored. This is the old counter plus 1 when the reported count is
  \<open>MAX_LOGIN_ATTEMPTS\<close> minus the old counter.
\<close>

theorem failed_login_sets_counter_from_server:
  assumes "\<not> isLocked s"
    and "check_rate_limit r (email d) MAX_LOGIN_ATTEMPTS 15 = Responds chk err"
    and "case chk of None \<Rightarrow> True | Some c \<Rightarrow> allowed c"
    and "fst (signIn r (email d) (password d)) = Returns (Some e)"
    and "record_login_attempt r (email d) False = Responds u re"
  shows "isLocked (fst (onSubmit r d now s)) = False \<and>
         lockoutEndTime (fst (onSubmit r d now s)) = lockoutEndTime s \<and>
         loginAttempts (fst (onSubmit r d now s)) =
           Num (MAX_LOGIN_ATTEMPTS - reported_remaining chk + 1) \<and>
         localStorage (fst (onSubmit r d now s)) ''loginAttempts'' =
           Some (toString (MAX_LOGIN_ATTEMPTS - reported_remaining chk + 1)) \<and>
         (loginAttempts s = Num a \<and> reported_remaining chk = MAX_LOGIN_ATTEMPTS - a \<longrightarrow>
           loginAttempts (fst (onSubmit r d now s)) = Num (a + 1))"
proof -
  have st: "fst (onSubmit r d now s) = fst (login_failed_update chk s)"
    using onSubmit_attempt [OF assms(1,2,3)] attempt_login_failed [OF assms(4,5)] by simp
  show ?thesis
    using assms(1) by (simp add: st login_failed_update_state)
qed

theorem failed_login_sets_counter_from_server_witness:
  "isLocked (fst (onSubmit (wrong_password 5) some_login 1000 fresh_page)) = False \<and>
   loginAttempts fresh_page = Num 0 \<and>
   loginAttempts (fst (onSubmit (wrong_password 5) some_login 1000 fresh_page)) = Num 1 \<and>
   localStorage (fst (onSubmit (wrong_password 5) some_login 1000 fresh_page))
     ''loginAttempts'' = Some ''1''"
proof -
  have al: "case Some (allow_with 5) of None \<Rightarrow> True | Some c \<Rightarrow> allowed c"
    by (simp add: allow_with_def)
  have rem: "reported_remaining (Some (allow_with 5)) = 5"
    by (simp add: reported_remaining_def allow_with_def)
  have one: "toString 1 = ''1''" by code_simp
  from failed_login_sets_counter_from_server
         [OF fresh_page_facts(1) wrong_password_replies(1) al wrong_password_replies(2,3),
          of 1000 0]
       rem one fresh_page_facts(2)
  show ?thesis by (simp add: MAX_LOGIN_ATTEMPTS_def)
qed

subsection \<open>The invariant of the reachable pages\<close>

lemma parseInt_toString_small:
  assumes "1 \<le> n" and "n \<le> 5"
  shows "parseInt (toString n) = Num n"
proof -
  from assms have "n = 1 \<or> n = 2 \<or> n = 3 \<or> n = 4 \<or> n = 5" by arith
  moreover have "parseInt (toString 1) = Num 1" by code_simp
  moreover have "parseInt (toString 2) = Num 2" by code_simp
  moreover have "parseInt (toString 3) = Num 3" by code_simp
  moreover have "parseInt (toString 4) = Num 4" by code_simp
  moreover have "parseInt (toString 5) = Num 5" by code_simp
  ultimately show ?thesis by auto
qed

lemma mount_inv:
  "stored_attempts_ok (storage ''loginAttempts'') \<Longrightarrow> guard_inv (mount now storage)"
  by (auto simp: mount_def check_existing_lockout_def initial_page_def guard_inv_def
                 stored_attempts_ok_def remove_lockout_keys_def Let_def MAX_LOGIN_ATTEMPTS_def
           split: option.splits number.splits if_splits)

lemma tick_inv: "guard_inv s \<Longrightarrow> guard_inv (countdown_tick now s)"
  by (auto simp: countdown_tick_def guard_inv_def stored_attempts_ok_def
                 remove_lockout_keys_def MAX_LOGIN_ATTEMPTS_def
           split: option.splits)

lemma loading_inv: "guard_inv s \<Longrightarrow> guard_inv (s\<lparr>isLoading := False\<rparr>)"
  by (simp add: guard_inv_def)

lemma server_lockout_inv: "guard_inv s \<Longrightarrow> guard_inv (fst (server_lockout c s))"
  using parseInt_toString_small [of 5]
  by (auto simp: server_lockout_state guard_inv_def stored_attempts_ok_def
                 MAX_LOGIN_ATTEMPTS_def)

lemma login_succeeded_inv: "guard_inv s \<Longrightarrow> guard_inv (fst (login_succeeded s))"
  by (auto simp: login_succeeded_def guard_inv_def stored_attempts_ok_def
                 remove_lockout_keys_def MAX_LOGIN_ATTEMPTS_def)

lemma login_failed_update_inv:
  assumes "guard_inv s" and "1 \<le> reported_remaining chk"
    and "reported_remaining chk \<le> MAX_LOGIN_ATTEMPTS"
  shows "guard_inv (fst (login_failed_update chk s))"
proof -
  let ?n = "MAX_LOGIN_ATTEMPTS - reported_remaining chk + 1"
  have r: "1 \<le> ?n" "?n \<le> 5" using assms(2,3) by (simp_all add: MAX_LOGIN_ATTEMPTS_def)
  from parseInt_toString_small [OF r] r assms(1) show ?thesis
    by (auto simp: login_failed_update_state guard_inv_def stored_attempts_ok_def
                   MAX_LOGIN_ATTEMPTS_def)
qed

lemma attempt_login_state:
  "fst (attempt_login r d chk s) = s\<lparr>isLoading := False\<rparr> \<or>
   fst (attempt_login r d chk s) = fst (login_failed_update chk s) \<or>
   fst (attempt_login r d chk s) = fst (login_succeeded s)"
  by (auto simp: attempt_login_def Let_def
           split: prod.splits completion.splits response.splits)

lemma onSubmit_state:
  "fst (onSubmit r d now s) = s \<or>
   fst (onSubmit r d now s) = s\<lparr>isLoading := False\<rparr> \<or>
   (\<exists>c err. check_rate_limit r (email d) MAX_LOGIN_ATTEMPTS 15 = Responds (Some c) err \<and>
        \<not> allowed c \<and> fst (onSubmit r d now s) = fst (server_lockout c s)) \<or>
   (\<exists>chk err. check_rate_limit r (email d) MAX_LOGIN_ATTEMPTS 15 = Responds chk err \<and>
        (case chk of None \<Rightarrow> True | Some c \<Rightarrow> allowed c) \<and>
        fst (onSubmit r d now s) = fst (attempt_login r d chk s))"
  by (auto simp: onSubmit_def Let_def split: prod.splits response.splits option.splits)

lemma contract_remaining:
  assumes "rate_limit_contract (Responds chk err)"
    and "case chk of None \<Rightarrow> True | Some c \<Rightarrow> allowed c"
  shows "1 \<le> reported_remaining chk \<and> reported_remaining chk \<le> MAX_LOGIN_ATTEMPTS"
  using assms
  by (auto simp: rate_limit_contract_def reported_remaining_def MAX_LOGIN_ATTEMPTS_def
           split: option.splits)

lemma onSubmit_inv:
  assumes "guard_inv s"
    and "rate_limit_contract (check_rate_limit r (email d) MAX_LOGIN_ATTEMPTS 15)"
  shows "guard_inv (fst (onSubmit r d now s))"
proof -
  consider "fst (onSubmit r d now s) = s"
    | "fst (onSubmit r d now s) = s\<lparr>isLoading := False\<rparr>"
    | c where "fst (onSubmit r d now s) = fst (server_lockout c s)"
    | chk err where "check_rate_limit r (email d) MAX_LOGIN_ATTEMPTS 15 = Responds chk err"
        "case chk of None \<Rightarrow> True | Some c \<Rightarrow> allowed c"
        "fst (onSubmit r d now s) = fst (attempt_login r d chk s)"
    using onSubmit_state [of r d now s] by blast
  then show ?thesis
  proof cases
    case 1
    then show ?thesis using assms(1) by simp
  next
    case 2
    then show ?thesis using assms(1) by (simp add: loading_inv)
  next
    case 3
    then show ?thesis using assms(1) by (simp add: server_lockout_inv)
  next
    case 4
    have rem: "1 \<le> reported_remaining chk \<and> reported_remaining chk \<le> MAX_LOGIN_ATTEMPTS"
      using contract_remaining assms(2) 4(1,2) by simp
    from attempt_login_state [of r d chk s] show ?thesis
      using 4(3) assms(1) rem loading_inv login_failed_update_inv login_succeeded_inv
      by auto
  qed
qed

lemma reachable_inv: "reachable s \<Longrightarrow> guard_inv s"
proof (induction rule: reachable.induct)
  case (first_visit now)
  show ?case by (rule mount_inv) (simp add: stored_attempts_ok_def)
next
  case (restart s now)
  then have "stored_attempts_ok (localStorage s ''loginAttempts'')"
    by (simp add: guard_inv_def)
  then show ?case by (rule mount_inv)
next
  case (tick s now)
  then show ?case by (simp add: tick_inv)
next
  case (submit s r d now)
  then show ?case by (simp add: onSubmit_inv)
qed

lemma reachable_after_first_submission:
  "rate_limit_contract (check_rate_limit r (email d) MAX_LOGIN_ATTEMPTS 15) \<Longrightarrow>
     reachable (fst (onSubmit r d now fresh_page))"
  unfolding fresh_page_def by (rule reachable.submit [OF reachable.first_visit])

lemma test_platform_contract:
  "rate_limit_contract
     (check_rate_limit (wrong_password 1) (email some_login) MAX_LOGIN_ATTEMPTS 15)"
  "rate_limit_contract
     (check_rate_limit (rate_limited 900000) (email some_login) MAX_LOGIN_ATTEMPTS 15)"
  by code_simp+

text \<open>
  The bound on the counter rests on the platform: the counter is computed from the
  reported count, so a platform that allows a login while reporting no attempt as
  remaining takes it past the threshold.
\<close>

lemma counter_follows_any_reported_count:
  "loginAttempts (fst (onSubmit (wrong_password 0) some_login 1000 fresh_page)) = Num 6"
  by code_simp

text \<open>
  C7, as the claim states it: two reachable pages. After a failed login for which the
  platform reported one attempt as remaining, the counter is at the threshold 5 and there
  is no \<open>lockoutEndTime\<close>; after the platform has reported a lockout, there is a
  \<open>lockoutEndTime\<close> and the counter is 0.
\<close>

theorem threshold_and_lockout_end_are_independent:
  "reachable (fst (onSubmit (wrong_password 1) some_login 1000 fresh_page)) \<and>
   loginAttempts (fst (onSubmit (wrong_password 1) some_login 1000 fresh_page)) = Num 5 \<and>
   lockoutEndTime (fst (onSubmit (wrong_password 1) some_login 1000 fresh_page)) = None \<and>
   reachable locked_page \<and>
   loginAttempts locked_page = Num 0 \<and>
   lockoutEndTime locked_page = Some 900000"
proof -
  have r1: "reachable (fst (onSubmit (wrong_password 1) some_login 1000 fresh_page))"
    by (rule reachable_after_first_submission [OF test_platform_contract(1)])
  have r2: "reachable locked_page"
    unfolding locked_page_def
    by (rule reachable_after_first_submission [OF test_platform_contract(2)])
  have v1: "loginAttempts (fst (onSubmit (wrong_password 1) some_login 1000 fresh_page)) =
              Num 5"
    by code_simp
  have v2: "lockoutEndTime (fst (onSubmit (wrong_password 1) some_login 1000 fresh_page)) =
              None"
    by code_simp
  have v3: "loginAttempts locked_page = Num 0" by code_simp
  from r1 r2 v1 v2 v3 locked_page_facts(3) show ?thesis by blast
qed

text \<open>
  C7, amended. In every reachable state of the login page, the platform's rate-limit
  check reporting between 1 and 5 attempts as remaining whenever it allows a login, the
  attempt counter is an integer between 0 and the threshold 5 inclusive, and
  \<open>lockoutEndTime\<close> is present if and only if \<open>isLocked\<close> is set.
\<close>

theorem reachable_attempts_in_range:
  "reachable s \<Longrightarrow>
     (\<exists>n. loginAttempts s = Num n \<and> 0 \<le> n \<and> n \<le> MAX_LOGIN_ATTEMPTS) \<and>
     (lockoutEndTime s \<noteq> None \<longleftrightarrow> isLocked s)"
  using reachable_inv [of s] by (simp add: guard_inv_def)

theorem reachable_attempts_in_range_witness:
  "reachable locked_page \<and> isLocked locked_page \<and>
   lockoutEndTime locked_page = Some 900000 \<and>
   (\<exists>n. loginAttempts locked_page = Num n \<and> 0 \<le> n \<and> n \<le> MAX_LOGIN_ATTEMPTS)"
proof -
  have r: "reachable locked_page"
    unfolding locked_page_def
    by (rule reachable_after_first_submission [OF test_platform_contract(2)])
  from reachable_attempts_in_range [OF r] r locked_page_facts(1,3) show ?thesis by blast
qed

section \<open>Properties of the authentication hook\<close>

lemma resolves_cases:
  "resolves reply \<Longrightarrow> (case reply of Rejects x \<Rightarrow> f x | Responds a e \<Rightarrow> g) = g"
  by (cases reply) (simp_all add: resolves_def)

lemma signIn_audit_independent:
  assumes "\<forall>u ev. resolves (log_security_event r u ev)"
  shows "signIn r e p = signIn (r\<lparr>log_security_event := \<lambda>_ _. Responds () None\<rparr>) e p"
  using assms
  by (simp add: signIn_def signIn_catch_def Let_def resolves_cases
           split: response.splits option.splits)

lemma signUp_audit_independent:
  assumes "\<forall>u ev. resolves (log_security_event r u ev)"
  shows "signUp r e p n = signUp (r\<lparr>log_security_event := \<lambda>_ _. Responds () None\<rparr>) e p n"
  using assms
  by (simp add: signUp_def signUp_catch_def Let_def resolves_cases
           split: response.splits option.splits)

lemma signOut_audit_independent:
  assumes "\<forall>u ev. resolves (log_security_event r u ev)"
  shows "signOut r uid = signOut (r\<lparr>log_security_event := \<lambda>_ _. Responds () None\<rparr>) uid"
  using assms
  by (simp add: signOut_def Let_def resolves_cases
           split: response.splits option.splits)

lemma signIn_authenticated:
  assumes "\<forall>u ev. resolves (log_security_event r u ev)"
    and "auth_signInWithPassword r e p = Responds (Some uid) None"
    and "resolves (profiles_update_last_login r uid)"
  shows "fst (signIn r e p) = Returns None" and "console_output (snd (signIn r e p)) = []"
  using assms
  by (simp_all add: signIn_def Let_def resolves_cases console_output_simps welcome_back_def)

text \<open>
  C8, as the claim states it. The platform accepts the password and fails to write the
  audit log. When it reports the failure in its reply, the sign-in succeeds and nothing
  is written to the console: the failure is not logged. When the call is rejected, the
  sign-in that authenticated ends in an exception, not in a success.
\<close>

theorem audit_failure_is_not_logged:
  "log_security_event audit_failing (Some ''user-1'') login_success =
     Responds () (Some ''violates check constraint'') \<and>
   fst (signIn audit_failing ''user@example.com'' ''Abcdef1!'') = Returns None \<and>
   console_output (snd (signIn audit_failing ''user@example.com'' ''Abcdef1!'')) = [] \<and>
   auth_signInWithPassword audit_rejecting ''user@example.com'' ''Abcdef1!'' =
     Responds (Some ''user-1'') None \<and>
   fst (signIn audit_rejecting ''user@example.com'' ''Abcdef1!'') = Throws ''Failed to fetch''"
  by code_simp

text \<open>
  C8, amended. For every signup, login or logout flow, a failure of the audit-log call
  that the platform reports in its reply is ignored, without any console output for it,
  and never changes the outcome of the primary user action: the result and all effects
  of the flow are those of the same flow with a successful audit write, and a login that
  authenticated successfully completes as a success.
\<close>

theorem audit_error_reply_never_changes_outcome:
  assumes "\<forall>u ev. resolves (log_security_event r u ev)"
  shows "signUp r e p n = signUp (r\<lparr>log_security_event := \<lambda>_ _. Responds () None\<rparr>) e p n \<and>
         signIn r e p = signIn (r\<lparr>log_security_event := \<lambda>_ _. Responds () None\<rparr>) e p \<and>
         signOut r uid = signOut (r\<lparr>log_security_event := \<lambda>_ _. Responds () None\<rparr>) uid \<and>
         (auth_signInWithPassword r e p = Responds (Some u) None \<and>
          resolves (profiles_update_last_login r u) \<longrightarrow>
            fst (signIn r e p) = Returns None \<and> console_output (snd (signIn r e p)) = [])"
  using signUp_audit_independent [OF assms] signIn_audit_independent [OF assms]
        signOut_audit_independent [OF assms] signIn_authenticated [OF assms]
  by blast

theorem audit_error_reply_never_changes_outcome_witness:
  "log_security_event audit_failing (Some ''user-1'') login_success =
     Responds () (Some ''violates check constraint'') \<and>
   signIn audit_failing ''user@example.com'' ''Abcdef1!'' =
     signIn (audit_failing\<lparr>log_security_event := \<lambda>_ _. Responds () None\<rparr>)
       ''user@example.com'' ''Abcdef1!'' \<and>
   fst (signIn audit_failing ''user@example.com'' ''Abcdef1!'') = Returns None \<and>
   console_output (snd (signIn audit_failing ''user@example.com'' ''Abcdef1!'')) = []"
proof -
  have res: "\<forall>u ev. resolves (log_security_event audit_failing u ev)"
    by (simp add: audit_failing_def test_platform_def resolves_def)
  have auth: "auth_signInWithPassword audit_failing ''user@example.com'' ''Abcdef1!'' =
                Responds (Some ''user-1'') None"
    by (simp add: audit_failing_def test_platform_def)
  have upd: "resolves (profiles_update_last_login audit_failing ''user-1'')"
    by (simp add: audit_failing_def test_platform_def resolves_def)
  have ev: "log_security_event audit_failing (Some ''user-1'') login_success =
              Responds () (Some ''violates check constraint'')"
    by (simp add: audit_failing_def test_platform_def)
  from audit_error_reply_never_changes_outcome
         [OF res, of "''user@example.com''" "''Abcdef1!''" n uid "''user-1''" for n uid]
       auth upd ev
  show ?thesis by blast
qed

end
